theory Spec2Isabelle
  imports Complex_Main
begin

section \<open>The calculator of script.js\<close>

text \<open>
  The program keeps one state object (the text being typed, the committed tokens, the
  history and a flag) and changes it on every key. Its evaluator works on JavaScript
  numbers, which are IEEE doubles. The functions of the language that the program calls
  on numbers (\<^verbatim>\<open>parseFloat\<close>, \<^verbatim>\<open>isNaN\<close>, the four arithmetic operators,
  \<^verbatim>\<open>=== 0\<close>, \<^verbatim>\<open>Math.abs\<close>, the comparisons, \<^verbatim>\<open>toString\<close> and
  \<^verbatim>\<open>toExponential\<close>) are not code of the program: the model takes them as a record of
  operations over a type \<open>'n\<close> of numbers, and every general theorem holds for every
  such record, the doubles of a browser included.
\<close>

subsection \<open>The number operations the program uses\<close>

record 'n number_ops =
  parseFloat :: "string \<Rightarrow> 'n"
  isNaN :: "'n \<Rightarrow> bool"
  NaN :: "'n"
  num_add :: "'n \<Rightarrow> 'n \<Rightarrow> 'n"
  num_sub :: "'n \<Rightarrow> 'n \<Rightarrow> 'n"
  num_mul :: "'n \<Rightarrow> 'n \<Rightarrow> 'n"
  num_div :: "'n \<Rightarrow> 'n \<Rightarrow> 'n"
  eq_zero :: "'n \<Rightarrow> bool"
  Math_abs :: "'n \<Rightarrow> 'n"
  num_gt :: "'n \<Rightarrow> 'n \<Rightarrow> bool"
  num_lt :: "'n \<Rightarrow> 'n \<Rightarrow> bool"
  lit_1e7 :: "'n"
  lit_1em7 :: "'n"
  toString :: "'n \<Rightarrow> string"
  toExponential :: "'n \<Rightarrow> nat \<Rightarrow> string"

text \<open>
  \<open>eq_zero x\<close> is \<^verbatim>\<open>x === 0\<close>. \<open>NaN\<close> is what an arithmetic operator makes of
  \<^verbatim>\<open>undefined\<close>, the value of an array read past the end.
  A number is falsy (\<^verbatim>\<open>!x\<close>) when it is NaN or zero.
\<close>

definition falsy :: "'n number_ops \<Rightarrow> 'n \<Rightarrow> bool" where
  "falsy ops x = (isNaN ops x \<or> eq_zero ops x)"

subsection \<open>Errors\<close>

datatype error = InvalidNumber | InvalidExpression | DivideByZero | InvalidOperation

fun message :: "error \<Rightarrow> string" where
  "message InvalidNumber = ''Invalid number''"
| "message InvalidExpression = ''Invalid expression''"
| "message DivideByZero = ''Cannot divide by zero''"
| "message InvalidOperation = ''Invalid operation''"

subsection \<open>evaluateExpression\<close>

text \<open>\<^verbatim>\<open>['+', '-', '*', '/'].includes(token)\<close>\<close>

definition is_operator :: "string \<Rightarrow> bool" where
  "is_operator token = (token \<in> set [''+'', ''-'', ''*'', ''/''])"

text \<open>
  The first loop: every token goes to \<open>operators\<close> or, parsed, to \<open>numbers\<close>; a token
  that parses to NaN throws.
\<close>

fun parse_tokens ::
  "'n number_ops \<Rightarrow> string list \<Rightarrow> 'n list \<Rightarrow> string list \<Rightarrow> error + ('n list \<times> string list)"
where
  "parse_tokens ops [] numbers operators = Inr (numbers, operators)"
| "parse_tokens ops (token # tokens) numbers operators =
     (if is_operator token then parse_tokens ops tokens numbers (operators @ [token])
      else let num = parseFloat ops token
           in if isNaN ops num then Inl InvalidNumber
              else parse_tokens ops tokens (numbers @ [num]) operators)"

text \<open>\<^verbatim>\<open>const precedence = { '+': 1, '-': 1, '*': 2, '/': 2 }\<close>\<close>

definition precedence :: "string \<Rightarrow> nat option" where
  "precedence op =
     (if op = ''+'' then Some 1 else if op = ''-'' then Some 1
      else if op = ''*'' then Some 2 else if op = ''/'' then Some 2 else None)"

definition applyOperator :: "'n number_ops \<Rightarrow> string \<Rightarrow> 'n \<Rightarrow> 'n \<Rightarrow> error + 'n" where
  "applyOperator ops op a b =
     (if op = ''+'' then Inr (num_add ops a b)
      else if op = ''-'' then Inr (num_sub ops a b)
      else if op = ''*'' then Inr (num_mul ops a b)
      else if op = ''/'' then (if eq_zero ops b then Inl DivideByZero else Inr (num_div ops a b))
      else Inl InvalidOperation)"

text \<open>
  Array accesses of the two reducing loops. A read past the end is \<^verbatim>\<open>undefined\<close>,
  which the arithmetic turns into NaN; a write past the end extends the array, the
  holes reading as \<^verbatim>\<open>undefined\<close>; \<^verbatim>\<open>splice(i, 1)\<close> removes the element at \<open>i\<close>
  if there is one.
\<close>

definition num_at :: "'n number_ops \<Rightarrow> 'n list \<Rightarrow> nat \<Rightarrow> 'n" where
  "num_at ops numbers i = (if i < length numbers then numbers ! i else NaN ops)"

definition set_at :: "'n number_ops \<Rightarrow> 'n list \<Rightarrow> nat \<Rightarrow> 'n \<Rightarrow> 'n list" where
  "set_at ops numbers i v =
     (if i < length numbers then numbers[i := v]
      else numbers @ replicate (i - length numbers) (NaN ops) @ [v])"

definition splice1 :: "'a list \<Rightarrow> nat \<Rightarrow> 'a list" where
  "splice1 xs i = take i xs @ drop (Suc i) xs"

text \<open>The \<^verbatim>\<open>while\<close> loop that applies \<^verbatim>\<open>*\<close> and \<^verbatim>\<open>/\<close>.\<close>

function high_pass ::
  "'n number_ops \<Rightarrow> 'n list \<Rightarrow> string list \<Rightarrow> nat \<Rightarrow> error + ('n list \<times> string list)"
where
  "high_pass ops numbers operators i =
     (if i < length operators then
        (if precedence (operators ! i) = Some 2 then
           (case applyOperator ops (operators ! i) (num_at ops numbers i) (num_at ops numbers (i + 1)) of
              Inl e \<Rightarrow> Inl e
            | Inr v \<Rightarrow> high_pass ops (splice1 (set_at ops numbers i v) (i + 1)) (splice1 operators i) i)
         else high_pass ops numbers operators (i + 1))
      else Inr (numbers, operators))"
  by pat_completeness auto
termination
  by (relation "measure (\<lambda>(ops, numbers, operators, i). length operators - i)")
     (auto simp: splice1_def)

declare high_pass.simps [simp del]

text \<open>The \<^verbatim>\<open>for\<close> loop that applies what is left, from \<^verbatim>\<open>numbers[0]\<close>.\<close>

function low_pass ::
  "'n number_ops \<Rightarrow> 'n list \<Rightarrow> string list \<Rightarrow> nat \<Rightarrow> 'n \<Rightarrow> error + 'n"
where
  "low_pass ops numbers operators i result =
     (if i < length operators then
        (case applyOperator ops (operators ! i) result (num_at ops numbers (i + 1)) of
           Inl e \<Rightarrow> Inl e
         | Inr v \<Rightarrow> low_pass ops numbers operators (i + 1) v)
      else Inr result)"
  by pat_completeness auto
termination
  by (relation "measure (\<lambda>(ops, numbers, operators, i, result). length operators - i)") auto

declare low_pass.simps [simp del]

definition evaluateExpression :: "'n number_ops \<Rightarrow> string list \<Rightarrow> error + 'n" where
  "evaluateExpression ops expr =
     (case parse_tokens ops expr [] [] of
        Inl e \<Rightarrow> Inl e
      | Inr (numbers, operators) \<Rightarrow>
          if length numbers = 1 \<and> length operators = 0 then Inr (numbers ! 0)
          else if length numbers \<le> length operators then Inl InvalidExpression
          else (case high_pass ops numbers operators 0 of
                  Inl e \<Rightarrow> Inl e
                | Inr (numbers', operators') \<Rightarrow>
                    low_pass ops numbers' operators' 0 (num_at ops numbers' 0)))"

subsection \<open>formatResult\<close>

text \<open>\<^verbatim>\<open>numStr.replace('.', '')\<close> removes the first point only.\<close>

definition replace_point :: "string \<Rightarrow> string" where
  "replace_point numStr = remove1 (CHR ''.'') numStr"

definition formatResult :: "'n number_ops \<Rightarrow> 'n \<Rightarrow> string" where
  "formatResult ops number =
     (let numStr = toString ops number;
          absNum = Math_abs ops number
      in if length (replace_point numStr) > 10
            \<or> (num_gt ops absNum (lit_1e7 ops)
                \<or> (num_lt ops absNum (lit_1em7 ops) \<and> \<not> eq_zero ops absNum))
         then toExponential ops number 4
         else numStr)"

subsection \<open>The state and its operations\<close>

record hist_entry =
  h_expression :: string
  h_result :: string

record state =
  currentInput :: string
  expression :: "string list"
  history :: "hist_entry list"
  isResultDisplayed :: bool

definition initial_state :: state where
  "initial_state =
     \<lparr>currentInput = [], expression = [], history = [], isResultDisplayed = False\<rparr>"

text \<open>
  The reset that \<^verbatim>\<open>appendNumber\<close> and \<^verbatim>\<open>backspace\<close> start with when a result is on
  the display. The calls on \<^verbatim>\<open>document\<close> and \<^verbatim>\<open>updateDisplay\<close> only write to the
  page and are left out.
\<close>

definition reset_if_displayed :: "state \<Rightarrow> state" where
  "reset_if_displayed s =
     (if isResultDisplayed s
      then s\<lparr>currentInput := [], expression := [], isResultDisplayed := False\<rparr>
      else s)"

definition appendNumber :: "string \<Rightarrow> state \<Rightarrow> state" where
  "appendNumber digit s =
     (let s1 = reset_if_displayed s
      in if digit = ''.'' \<and> CHR ''.'' \<in> set (currentInput s1) then s1
         else s1\<lparr>currentInput := currentInput s1 @ digit\<rparr>)"

text \<open>\<^verbatim>\<open>op.trim()\<close>, on the white space of ASCII.\<close>

definition is_space :: "char \<Rightarrow> bool" where
  "is_space c = (c \<in> set [CHR '' '', CHR 0x09, CHR 0x0A, CHR 0x0B, CHR 0x0C, CHR 0x0D])"

definition trim :: "string \<Rightarrow> string" where
  "trim s = rev (dropWhile is_space (rev (dropWhile is_space s)))"

definition appendOperator :: "string \<Rightarrow> state \<Rightarrow> state" where
  "appendOperator op s =
     (let s1 = (if isResultDisplayed s
                then s\<lparr>expression := [currentInput s], currentInput := [],
                       isResultDisplayed := False\<rparr>
                else s)
      in if currentInput s1 = [] \<and> op \<noteq> '' - '' then s1
         else let s2 = (if currentInput s1 \<noteq> []
                        then s1\<lparr>expression := expression s1 @ [currentInput s1],
                                currentInput := []\<rparr>
                        else s1)
              in s2\<lparr>expression := expression s2 @ [trim op]\<rparr>)"

text \<open>
  \<^verbatim>\<open>pop()\<close> removes the last element and returns it, \<^verbatim>\<open>undefined\<close> on an empty
  array; \<^verbatim>\<open>x || ''\<close> is the empty string for \<^verbatim>\<open>undefined\<close> and for the empty string.
\<close>

definition pop_or_empty :: "string list \<Rightarrow> string" where
  "pop_or_empty xs = (if xs = [] then [] else last xs)"

definition backspace :: "state \<Rightarrow> state" where
  "backspace s =
     (let s1 = reset_if_displayed s
      in if currentInput s1 \<noteq> [] then s1\<lparr>currentInput := butlast (currentInput s1)\<rparr>
         else if length (expression s1) > 0
         then s1\<lparr>currentInput := pop_or_empty (butlast (expression s1)),
                 expression := butlast (butlast (expression s1))\<rparr>
         else s1)"

definition clearDisplay :: "state \<Rightarrow> state" where
  "clearDisplay s = s\<lparr>currentInput := [], expression := [], isResultDisplayed := False\<rparr>"

definition clearAll :: "state \<Rightarrow> state" where
  "clearAll s =
     s\<lparr>currentInput := [], expression := [], history := [], isResultDisplayed := False\<rparr>"

subsection \<open>calculate\<close>

text \<open>The expression after the pending input, if any, has been pushed.\<close>

definition pushed :: "state \<Rightarrow> string list" where
  "pushed s = (if currentInput s \<noteq> [] then expression s @ [currentInput s] else expression s)"

text \<open>The test of the early \<^verbatim>\<open>return\<close>, on the pushed expression.\<close>

definition skipped :: "'n number_ops \<Rightarrow> string list \<Rightarrow> bool" where
  "skipped ops e = (length e < 1 \<or> (length e = 1 \<and> falsy ops (parseFloat ops (e ! 0))))"

text \<open>\<^verbatim>\<open>history.push(entry)\<close>, then \<^verbatim>\<open>shift()\<close> when there are more than 10.\<close>

definition push_history :: "hist_entry list \<Rightarrow> hist_entry \<Rightarrow> hist_entry list" where
  "push_history h entry = (let h1 = h @ [entry] in if length h1 > 10 then tl h1 else h1)"

definition calculate :: "'n number_ops \<Rightarrow> state \<Rightarrow> state" where
  "calculate ops s =
     (if isResultDisplayed s then s
      else let e = pushed s
           in if skipped ops e then s\<lparr>expression := e\<rparr>
              else (case evaluateExpression ops e of
                      Inr result \<Rightarrow>
                        let expressionStr = concat e;
                            formattedResult = formatResult ops result
                        in \<lparr>currentInput = formattedResult, expression = [],
                            history = push_history (history s)
                              \<lparr>h_expression = expressionStr, h_result = formattedResult\<rparr>,
                            isResultDisplayed = True\<rparr>
                    | Inl err \<Rightarrow>
                        \<lparr>currentInput = message err, expression = [],
                         history = history s, isResultDisplayed = True\<rparr>))"

subsection \<open>User actions\<close>

datatype action =
    AppendNumber string
  | AppendOperator string
  | Backspace
  | ClearDisplay
  | ClearAll
  | Calculate

fun step :: "'n number_ops \<Rightarrow> state \<Rightarrow> action \<Rightarrow> state" where
  "step ops s (AppendNumber digit) = appendNumber digit s"
| "step ops s (AppendOperator op) = appendOperator op s"
| "step ops s Backspace = backspace s"
| "step ops s ClearDisplay = clearDisplay s"
| "step ops s ClearAll = clearAll s"
| "step ops s Calculate = calculate ops s"

fun run :: "'n number_ops \<Rightarrow> state \<Rightarrow> action list \<Rightarrow> state" where
  "run ops s [] = s"
| "run ops s (a # as) = run ops (step ops s a) as"

section \<open>A reference instance of the number operations\<close>

text \<open>
  Closed examples need numbers to compute with. \<open>exact_ops\<close> works on exact
  rationals, \<open>None\<close> standing for NaN. It follows ECMAScript's definitions of
  \<^verbatim>\<open>parseFloat\<close>, \<^verbatim>\<open>Number.prototype.toString\<close> and
  \<^verbatim>\<open>Number.prototype.toExponential\<close> on decimal literals. It does not round to
  doubles, has no infinities (the literal \<^verbatim>\<open>Infinity\<close> is not read, and the
  evaluator never divides by zero) and prints at most 17 significant digits, so it
  stands for the numbers of a browser only where those limits are not met: on the
  short decimal literals and small integers of the examples below.
\<close>

definition is_digit :: "char \<Rightarrow> bool" where
  "is_digit c = (c \<in> set ''0123456789'')"

text \<open>The character of a decimal digit, and the digit of a character.\<close>

definition digit_char :: "int \<Rightarrow> char" where
  "digit_char d = ''0123456789'' ! nat (d mod 10)"

definition digit_value :: "char \<Rightarrow> int" where
  "digit_value c = int (length (takeWhile (\<lambda>x. x \<noteq> c) ''0123456789''))"

function show_int :: "int \<Rightarrow> string" where
  "show_int n = (if n < 10 then [digit_char n] else show_int (n div 10) @ [digit_char (n mod 10)])"
  by pat_completeness auto
termination
  by (relation "measure nat") auto

declare show_int.simps [simp del]

definition read_int :: "string \<Rightarrow> int" where
  "read_int ds = foldl (\<lambda>acc c. 10 * acc + digit_value c) 0 ds"

definition pow10 :: "int \<Rightarrow> rat" where
  "pow10 e = (if 0 \<le> e then 10 ^ nat e else 1 / 10 ^ nat (- e))"

text \<open>The exponent part of a literal, if its \<^verbatim>\<open>e\<close> is followed by digits.\<close>

definition read_exponent :: "string \<Rightarrow> int" where
  "read_exponent r =
     (case r of
        c # r1 \<Rightarrow>
          if c = CHR ''e'' \<or> c = CHR ''E'' then
            (case r1 of
               d # r2 \<Rightarrow>
                 if d = CHR ''-'' then - read_int (takeWhile is_digit r2)
                 else if d = CHR ''+'' then read_int (takeWhile is_digit r2)
                 else read_int (takeWhile is_digit r1)
             | [] \<Rightarrow> 0)
          else 0
      | [] \<Rightarrow> 0)"

text \<open>
  \<^verbatim>\<open>parseFloat\<close>: white space, a sign, then the longest prefix that is a decimal
  literal; NaN when there is none.
\<close>

definition exact_parseFloat :: "string \<Rightarrow> rat option" where
  "exact_parseFloat str =
     (let s1 = dropWhile is_space str;
          neg = (s1 \<noteq> [] \<and> hd s1 = CHR ''-'');
          s2 = (if s1 \<noteq> [] \<and> (hd s1 = CHR ''-'' \<or> hd s1 = CHR ''+'') then tl s1 else s1);
          ip = takeWhile is_digit s2;
          r1 = dropWhile is_digit s2;
          pt = (r1 \<noteq> [] \<and> hd r1 = CHR ''.'');
          fp = (if pt then takeWhile is_digit (tl r1) else []);
          r2 = (if pt then dropWhile is_digit (tl r1) else r1)
      in if ip = [] \<and> fp = [] then None
         else let m = of_int (read_int (ip @ fp)) * pow10 (- int (length fp))
                        * pow10 (read_exponent r2)
              in Some (if neg then - m else m))"

text \<open>
  The decimal exponent \<open>n\<close> of a positive number: \<open>10 ^ (n - 1) \<le> q < 10 ^ n\<close>
  (for \<open>q\<close> above \<open>10 ^ - 330\<close>, below every positive double).
\<close>

fun lead_zeros :: "nat \<Rightarrow> rat \<Rightarrow> int" where
  "lead_zeros 0 q = 0"
| "lead_zeros (Suc fuel) q = (if 1 \<le> q * 10 then 0 else 1 + lead_zeros fuel (q * 10))"

definition dec_exponent :: "rat \<Rightarrow> int" where
  "dec_exponent q = (if 1 \<le> q then int (length (show_int \<lfloor>q\<rfloor>)) else - lead_zeros 330 q)"

text \<open>The number \<open>k\<close> of significant digits, 17 at most.\<close>

fun count_digits :: "nat \<Rightarrow> int \<Rightarrow> rat \<Rightarrow> int" where
  "count_digits 0 k x = k"
| "count_digits (Suc fuel) k x =
     (if x = of_int \<lfloor>x\<rfloor> then k else count_digits fuel (k + 1) (x * 10))"

text \<open>\<^verbatim>\<open>Number::toString\<close> of a positive number, from its digits, \<open>k\<close> and \<open>n\<close>.\<close>

definition exact_digits :: "rat \<Rightarrow> string" where
  "exact_digits q =
     (let n = dec_exponent q;
          k = count_digits 16 1 (q * pow10 (1 - n));
          ds = show_int \<lfloor>q * pow10 (k - n)\<rfloor>
      in if k \<le> n \<and> n \<le> 21 then ds @ replicate (nat (n - k)) (CHR ''0'')
         else if 0 < n \<and> n \<le> 21 then take (nat n) ds @ ''.'' @ drop (nat n) ds
         else if - 6 < n \<and> n \<le> 0 then ''0.'' @ replicate (nat (- n)) (CHR ''0'') @ ds
         else let e = n - 1;
                  es = (if e < 0 then ''-'' else ''+'') @ show_int \<bar>e\<bar>
              in if k = 1 then ds @ ''e'' @ es else [hd ds] @ ''.'' @ tl ds @ ''e'' @ es)"

definition exact_toString :: "rat option \<Rightarrow> string" where
  "exact_toString x =
     (case x of
        None \<Rightarrow> ''NaN''
      | Some q \<Rightarrow>
          if q = 0 then ''0''
          else (if q < 0 then ''-'' else []) @ exact_digits \<bar>q\<bar>)"

text \<open>\<^verbatim>\<open>toExponential(f)\<close>: \<open>f\<close> digits after the point, ties rounded up.\<close>

definition exact_toExponential :: "rat option \<Rightarrow> nat \<Rightarrow> string" where
  "exact_toExponential x f =
     (case x of
        None \<Rightarrow> ''NaN''
      | Some q \<Rightarrow>
          if q = 0 then ''0'' @ (if f = 0 then [] else ''.'' @ replicate f (CHR ''0'')) @ ''e+0''
          else let e0 = dec_exponent \<bar>q\<bar> - 1;
                   m0 = \<lfloor>\<bar>q\<bar> * pow10 (int f - e0) + 1 / 2\<rfloor>;
                   m = (if 10 ^ (f + 1) \<le> m0 then m0 div 10 else m0);
                   e = (if 10 ^ (f + 1) \<le> m0 then e0 + 1 else e0);
                   ds = show_int m
               in (if q < 0 then ''-'' else []) @ [hd ds]
                  @ (if f = 0 then [] else ''.'' @ tl ds)
                  @ ''e'' @ (if e < 0 then ''-'' else ''+'') @ show_int \<bar>e\<bar>)"

definition lift2 :: "(rat \<Rightarrow> rat \<Rightarrow> rat) \<Rightarrow> rat option \<Rightarrow> rat option \<Rightarrow> rat option" where
  "lift2 f a b = (case (a, b) of (Some x, Some y) \<Rightarrow> Some (f x y) | _ \<Rightarrow> None)"

definition exact_div :: "rat option \<Rightarrow> rat option \<Rightarrow> rat option" where
  "exact_div a b = (if b = Some 0 then None else lift2 (/) a b)"

definition exact_gt :: "rat option \<Rightarrow> rat option \<Rightarrow> bool" where
  "exact_gt a b = (case (a, b) of (Some x, Some y) \<Rightarrow> y < x | _ \<Rightarrow> False)"

definition exact_lt :: "rat option \<Rightarrow> rat option \<Rightarrow> bool" where
  "exact_lt a b = (case (a, b) of (Some x, Some y) \<Rightarrow> x < y | _ \<Rightarrow> False)"

definition exact_ops :: "rat option number_ops" where
  "exact_ops =
     \<lparr>parseFloat = exact_parseFloat,
      isNaN = (\<lambda>x. x = None),
      NaN = None,
      num_add = lift2 (+),
      num_sub = lift2 (-),
      num_mul = lift2 (*),
      num_div = exact_div,
      eq_zero = (\<lambda>x. x = Some 0),
      Math_abs = map_option abs,
      num_gt = exact_gt,
      num_lt = exact_lt,
      lit_1e7 = Some 10000000,
      lit_1em7 = Some (1 / 10000000),
      toString = exact_toString,
      toExponential = exact_toExponential\<rparr>"

text \<open>The keys of a number, one \<^verbatim>\<open>appendNumber\<close> call for each character.\<close>

definition keys :: "string \<Rightarrow> action list" where
  "keys str = map (\<lambda>c. AppendNumber [c]) str"

section \<open>Vocabulary of the properties\<close>

subsection \<open>Counting tokens\<close>

text \<open>
  The evaluator takes a token for an operator when it is one of the four operator
  strings and for a number otherwise; a number token proper also parses.
\<close>

definition number_count :: "string list \<Rightarrow> nat" where
  "number_count expr = length (filter (\<lambda>t. \<not> is_operator t) expr)"

definition operator_count :: "string list \<Rightarrow> nat" where
  "operator_count expr = length (filter is_operator expr)"

definition number_token :: "'n number_ops \<Rightarrow> string \<Rightarrow> bool" where
  "number_token ops t = (\<not> is_operator t \<and> \<not> isNaN ops (parseFloat ops t))"

subsection \<open>The two-pass reading of an alternating sequence\<close>

text \<open>
  These definitions follow the words of the specification, not the code: a
  well-formed sequence is a first number and a list of (operator, number) pairs;
  \<open>spec_collapse\<close> applies every \<^verbatim>\<open>*\<close> and \<^verbatim>\<open>/\<close> from left to right in
  the order met, \<open>spec_fold\<close> folds what is left from the first remaining number.
\<close>

definition spec_apply :: "'n number_ops \<Rightarrow> string \<Rightarrow> 'n \<Rightarrow> 'n \<Rightarrow> error + 'n" where
  "spec_apply ops op a b =
     (if op = ''*'' then Inr (num_mul ops a b)
      else if op = ''/'' then (if eq_zero ops b then Inl DivideByZero else Inr (num_div ops a b))
      else if op = ''+'' then Inr (num_add ops a b)
      else if op = ''-'' then Inr (num_sub ops a b)
      else Inl InvalidOperation)"

fun spec_collapse ::
  "'n number_ops \<Rightarrow> 'n \<Rightarrow> (string \<times> 'n) list \<Rightarrow> error + ('n \<times> (string \<times> 'n) list)"
where
  "spec_collapse ops a [] = Inr (a, [])"
| "spec_collapse ops a ((op, b) # rest) =
     (if op = ''*'' \<or> op = ''/'' then
        (case spec_apply ops op a b of
           Inl e \<Rightarrow> Inl e
         | Inr v \<Rightarrow> spec_collapse ops v rest)
      else
        (case spec_collapse ops b rest of
           Inl e \<Rightarrow> Inl e
         | Inr (b', rest') \<Rightarrow> Inr (a, (op, b') # rest')))"

fun spec_fold :: "'n number_ops \<Rightarrow> 'n \<Rightarrow> (string \<times> 'n) list \<Rightarrow> error + 'n" where
  "spec_fold ops acc [] = Inr acc"
| "spec_fold ops acc ((op, b) # rest) =
     (case spec_apply ops op acc b of
        Inl e \<Rightarrow> Inl e
      | Inr v \<Rightarrow> spec_fold ops v rest)"

definition spec_value :: "'n number_ops \<Rightarrow> 'n \<Rightarrow> (string \<times> 'n) list \<Rightarrow> error + 'n" where
  "spec_value ops a ps =
     (case spec_collapse ops a ps of
        Inl e \<Rightarrow> Inl e
      | Inr (a', ps') \<Rightarrow> spec_fold ops a' ps')"

fun flatten :: "(string \<times> string) list \<Rightarrow> string list" where
  "flatten [] = []"
| "flatten ((op, t) # rest) = op # t # flatten rest"

subsection \<open>Operators out of place\<close>

fun starts_with_operator :: "string list \<Rightarrow> bool" where
  "starts_with_operator [] = False"
| "starts_with_operator (t # ts) = is_operator t"

fun adjacent_operators :: "string list \<Rightarrow> bool" where
  "adjacent_operators (a # b # ts) = ((is_operator a \<and> is_operator b) \<or> adjacent_operators (b # ts))"
| "adjacent_operators ts = False"

subsection \<open>Runs that apply the padded minus to plain input only\<close>

text \<open>
  The keys send single digits and the point to \<^verbatim>\<open>appendNumber\<close>. The guard of
  \<^verbatim>\<open>appendOperator\<close> lets exactly the string \<^verbatim>\<open>' - '\<close> through when
  nothing has been typed. \<open>permitted\<close> keeps that string to states whose buffer is
  not empty and does not start with an operator character (so the buffer may be
  typed input, or a displayed text other than a negative number), and leaves every
  other operator string free.
\<close>

definition digit_or_point :: "string \<Rightarrow> bool" where
  "digit_or_point digit =
     (digit \<in> set [''0'', ''1'', ''2'', ''3'', ''4'', ''5'', ''6'', ''7'', ''8'', ''9'', ''.''])"

definition operator_char :: "char \<Rightarrow> bool" where
  "operator_char c = (c \<in> set ''+-*/'')"

definition plain :: "string \<Rightarrow> bool" where
  "plain str = (str = [] \<or> \<not> operator_char (hd str))"

fun permitted :: "state \<Rightarrow> action \<Rightarrow> bool" where
  "permitted s (AppendNumber digit) = digit_or_point digit"
| "permitted s (AppendOperator op) =
     (op \<noteq> '' - '' \<or> (currentInput s \<noteq> [] \<and> plain (currentInput s)))"
| "permitted s a = True"

fun all_permitted :: "'n number_ops \<Rightarrow> state \<Rightarrow> action list \<Rightarrow> bool" where
  "all_permitted ops s [] = True"
| "all_permitted ops s (a # as) = (permitted s a \<and> all_permitted ops (step ops s a) as)"

text \<open>
  The invariant of such runs. While no result is displayed the input is plain, and
  the expression is a list of (plain non-empty token, token) pairs, possibly after
  one leading token that is not an operator (a result taken over by
  \<^verbatim>\<open>appendOperator\<close>, or the input that \<^verbatim>\<open>calculate\<close> pushed before it
  returned early).
\<close>

fun pairs :: "string list \<Rightarrow> bool" where
  "pairs [] = True"
| "pairs [t] = False"
| "pairs (n # t # rest) = (plain n \<and> n \<noteq> [] \<and> pairs rest)"

definition shape :: "string list \<Rightarrow> bool" where
  "shape e = (pairs e \<or> (e \<noteq> [] \<and> \<not> is_operator (hd e) \<and> pairs (tl e)))"

definition builder_inv :: "state \<Rightarrow> bool" where
  "builder_inv s =
     (if isResultDisplayed s then expression s = [] \<and> \<not> is_operator (currentInput s)
      else plain (currentInput s) \<and> shape (expression s))"

subsection \<open>The digits of a printed number\<close>

definition digit_count :: "string \<Rightarrow> nat" where
  "digit_count str = length (filter is_digit str)"

subsection \<open>The entries that a run adds to the history\<close>

text \<open>
  \<^verbatim>\<open>calculate\<close> is a successful computation in a state when it gets past both
  early returns and the evaluation does not throw; the entry it pushes pairs the
  joined expression with the text it displays.
\<close>

definition succeeds :: "'n number_ops \<Rightarrow> state \<Rightarrow> bool" where
  "succeeds ops s =
     (\<not> isResultDisplayed s \<and> \<not> skipped ops (pushed s)
      \<and> \<not> isl (evaluateExpression ops (pushed s)))"

fun added :: "'n number_ops \<Rightarrow> state \<Rightarrow> action \<Rightarrow> hist_entry list" where
  "added ops s Calculate =
     (if succeeds ops s
      then [\<lparr>h_expression = concat (pushed s), h_result = currentInput (calculate ops s)\<rparr>]
      else [])"
| "added ops s a = []"

fun added_all :: "'n number_ops \<Rightarrow> state \<Rightarrow> action list \<Rightarrow> hist_entry list" where
  "added_all ops s [] = []"
| "added_all ops s (a # as) = added ops s a @ added_all ops (step ops s a) as"

definition last_10 :: "'a list \<Rightarrow> 'a list" where
  "last_10 xs = drop (length xs - 10) xs"

text \<open>Eleven computations in a row: each number is typed and computed.\<close>

definition eleven :: "action list" where
  "eleven =
     concat (map (\<lambda>n. keys n @ [Calculate])
       [''1'', ''2'', ''3'', ''4'', ''5'', ''6'', ''7'', ''8'', ''9'', ''10'', ''11''])"

section \<open>The evaluator\<close>

subsection \<open>The parsing loop\<close>

lemma parse_tokens_ok:
  "\<forall>t\<in>set tokens. is_operator t \<or> \<not> isNaN ops (parseFloat ops t) \<Longrightarrow>
   parse_tokens ops tokens ns os =
     Inr (ns @ map (parseFloat ops) (filter (\<lambda>t. \<not> is_operator t) tokens),
          os @ filter is_operator tokens)"
  by (induction tokens arbitrary: ns os) (auto simp: Let_def)

lemma parse_tokens_bad:
  "\<exists>t\<in>set tokens. \<not> is_operator t \<and> isNaN ops (parseFloat ops t) \<Longrightarrow>
   parse_tokens ops tokens ns os = Inl InvalidNumber"
  by (induction tokens arbitrary: ns os) (auto simp: Let_def)

subsection \<open>The two reducing loops\<close>

lemma spec_apply_eq: "spec_apply ops op a b = applyOperator ops op a b"
  by (simp add: spec_apply_def applyOperator_def)

lemma precedence_high: "(precedence op = Some 2) = (op = ''*'' \<or> op = ''/'')"
  by (simp add: precedence_def)

text \<open>
  The \<^verbatim>\<open>while\<close> loop at index \<open>i\<close>, with \<open>i\<close> numbers and operators
  already passed, does to the rest what \<open>spec_collapse\<close> does.
\<close>

lemma high_pass_collapse:
  "length pre_n = length pre_o \<Longrightarrow>
   high_pass ops (pre_n @ a # map snd ps @ extra) (pre_o @ map fst ps) (length pre_o) =
     (case spec_collapse ops a ps of
        Inl e \<Rightarrow> Inl e
      | Inr (a', ps') \<Rightarrow> Inr (pre_n @ a' # map snd ps' @ extra, pre_o @ map fst ps'))"
proof (induction ps arbitrary: pre_n pre_o a)
  case Nil
  then show ?case by (subst high_pass.simps) simp
next
  case (Cons p rest)
  obtain op b where p: "p = (op, b)" by (cases p)
  let ?numbers = "pre_n @ a # map snd (p # rest) @ extra"
  let ?operators = "pre_o @ map fst (p # rest)"
  have idx: "length pre_o < length ?operators" by simp
  have op_at: "?operators ! length pre_o = op" using p by simp
  have a_at: "num_at ops ?numbers (length pre_o) = a"
    using Cons.prems by (simp add: num_at_def nth_append)
  have b_at: "num_at ops ?numbers (length pre_o + 1) = b"
    using Cons.prems p by (simp add: num_at_def nth_append)
  show ?case
  proof (cases "op = ''*'' \<or> op = ''/''")
    case True
    then have hi: "precedence op = Some 2" by (simp add: precedence_high)
    show ?thesis
    proof (cases "applyOperator ops op a b")
      case (Inl e)
      then show ?thesis
        using True hi idx op_at a_at b_at p
        by (subst high_pass.simps) (simp add: spec_apply_eq)
    next
      case (Inr v)
      have upd: "splice1 (set_at ops ?numbers (length pre_o) v) (length pre_o + 1) =
                 pre_n @ v # map snd rest @ extra"
        using Cons.prems p by (simp add: set_at_def splice1_def list_update_append)
      have ops': "splice1 ?operators (length pre_o) = pre_o @ map fst rest"
        by (simp add: splice1_def)
      have "high_pass ops ?numbers ?operators (length pre_o) =
            high_pass ops (pre_n @ v # map snd rest @ extra) (pre_o @ map fst rest) (length pre_o)"
        using hi idx op_at a_at b_at Inr upd ops'
        by (subst high_pass.simps) simp
      also have "\<dots> = (case spec_collapse ops v rest of
                          Inl e \<Rightarrow> Inl e
                        | Inr (a', ps') \<Rightarrow> Inr (pre_n @ a' # map snd ps' @ extra, pre_o @ map fst ps'))"
        using Cons.IH [OF Cons.prems] .
      finally show ?thesis
        using True Inr p by (simp add: spec_apply_eq)
    qed
  next
    case False
    then have lo: "precedence op \<noteq> Some 2" by (simp add: precedence_high)
    have len: "length (pre_n @ [a]) = length (pre_o @ [op])" using Cons.prems by simp
    have "high_pass ops ?numbers ?operators (length pre_o) =
          high_pass ops ((pre_n @ [a]) @ b # map snd rest @ extra) ((pre_o @ [op]) @ map fst rest)
            (length (pre_o @ [op]))"
      using lo idx op_at p by (subst high_pass.simps) simp
    also have "\<dots> = (case spec_collapse ops b rest of
                        Inl e \<Rightarrow> Inl e
                      | Inr (a', ps') \<Rightarrow>
                          Inr ((pre_n @ [a]) @ a' # map snd ps' @ extra, (pre_o @ [op]) @ map fst ps'))"
      using Cons.IH [OF len] .
    finally show ?thesis
      using False p by (simp split: sum.splits)
  qed
qed

lemma low_pass_fold:
  "length pre_n = Suc (length pre_o) \<Longrightarrow>
   low_pass ops (pre_n @ map snd ps @ extra) (pre_o @ map fst ps) (length pre_o) result =
     spec_fold ops result ps"
proof (induction ps arbitrary: pre_n pre_o result)
  case Nil
  then show ?case by (subst low_pass.simps) simp
next
  case (Cons p rest)
  obtain op b where p: "p = (op, b)" by (cases p)
  let ?numbers = "pre_n @ map snd (p # rest) @ extra"
  let ?operators = "pre_o @ map fst (p # rest)"
  have b_at: "num_at ops ?numbers (length pre_o + 1) = b"
    using Cons.prems p by (simp add: num_at_def nth_append)
  have len: "length (pre_n @ [b]) = Suc (length (pre_o @ [op]))" using Cons.prems by simp
  show ?case
  proof (cases "applyOperator ops op result b")
    case (Inl e)
    then show ?thesis
      using b_at p by (subst low_pass.simps) (simp add: spec_apply_eq)
  next
    case (Inr v)
    have "low_pass ops ?numbers ?operators (length pre_o) result =
          low_pass ops ((pre_n @ [b]) @ map snd rest @ extra) ((pre_o @ [op]) @ map fst rest)
            (length (pre_o @ [op])) v"
      using b_at p Inr by (subst low_pass.simps) simp
    also have "\<dots> = spec_fold ops v rest"
      using Cons.IH [OF len] .
    finally show ?thesis
      using Inr p by (simp add: spec_apply_eq)
  qed
qed

text \<open>What the two loops compute on any arrays that pass the validation.\<close>

lemma reduce_value:
  assumes "length operators < length numbers"
  shows "(case high_pass ops numbers operators 0 of
            Inl e \<Rightarrow> Inl e
          | Inr (numbers', operators') \<Rightarrow>
              low_pass ops numbers' operators' 0 (num_at ops numbers' 0)) =
         spec_value ops (hd numbers) (zip operators (tl numbers))"
proof -
  define ps where "ps = zip operators (tl numbers)"
  define extra where "extra = drop (Suc (length operators)) numbers"
  have lo: "length operators \<le> length (tl numbers)" using assms by simp
  have fst_ps: "map fst ps = operators"
    unfolding ps_def using lo by (simp add: map_fst_zip_take)
  have snd_ps: "map snd ps = take (length operators) (tl numbers)"
    unfolding ps_def using lo by (simp add: map_snd_zip_take min_def)
  have "numbers = hd numbers # tl numbers" using assms by (cases numbers) auto
  also have "tl numbers = take (length operators) (tl numbers) @ drop (length operators) (tl numbers)"
    by simp
  also have "drop (length operators) (tl numbers) = extra"
    by (simp add: extra_def drop_Suc)
  finally have nums: "numbers = [] @ hd numbers # map snd ps @ extra"
    using snd_ps by simp
  have "high_pass ops numbers operators 0 =
        high_pass ops ([] @ hd numbers # map snd ps @ extra) ([] @ map fst ps) (length ([]::string list))"
    using nums fst_ps by simp
  also have "\<dots> = (case spec_collapse ops (hd numbers) ps of
                      Inl e \<Rightarrow> Inl e
                    | Inr (a', ps') \<Rightarrow> Inr ([] @ a' # map snd ps' @ extra, [] @ map fst ps'))"
    by (rule high_pass_collapse) simp
  finally have hp: "high_pass ops numbers operators 0 =
        (case spec_collapse ops (hd numbers) ps of
           Inl e \<Rightarrow> Inl e
         | Inr (a', ps') \<Rightarrow> Inr (a' # map snd ps' @ extra, map fst ps'))"
    by (simp split: sum.splits)
  show ?thesis
  proof (cases "spec_collapse ops (hd numbers) ps")
    case (Inl e)
    then show ?thesis using hp by (simp add: spec_value_def ps_def)
  next
    case (Inr r)
    obtain a' ps' where r: "r = (a', ps')" by (cases r)
    have "low_pass ops ([a'] @ map snd ps' @ extra) ([] @ map fst ps') (length ([]::string list)) a' =
          spec_fold ops a' ps'"
      by (rule low_pass_fold) simp
    then show ?thesis
      using hp Inr r by (simp add: spec_value_def ps_def num_at_def)
  qed
qed

lemma evaluate_parsed:
  assumes "parse_tokens ops expr [] [] = Inr (numbers, operators)"
    and "length operators < length numbers"
  shows "evaluateExpression ops expr = spec_value ops (hd numbers) (zip operators (tl numbers))"
proof (cases "length numbers = 1 \<and> length operators = 0")
  case True
  then obtain a where "numbers = [a]" "operators = []"
    by (cases numbers) auto
  then show ?thesis
    using assms(1) by (simp add: evaluateExpression_def spec_value_def)
next
  case False
  then show ?thesis
    using assms reduce_value [OF assms(2), of ops]
    by (auto simp: evaluateExpression_def)
qed

lemma filter_flatten_ops:
  "\<forall>(op, t)\<in>set ps. is_operator op \<and> \<not> is_operator t \<Longrightarrow>
   filter is_operator (flatten ps) = map fst ps \<and>
   filter (\<lambda>t. \<not> is_operator t) (flatten ps) = map snd ps"
  by (induction ps) auto

lemma spec_collapse_div0:
  "(''/'', b) \<in> set ps \<Longrightarrow> eq_zero ops b \<Longrightarrow> spec_collapse ops a ps = Inl DivideByZero"
proof (induction ps arbitrary: a)
  case Nil
  then show ?case by simp
next
  case (Cons p rest)
  obtain op c where p: "p = (op, c)" by (cases p)
  show ?case
  proof (cases "p = (''/'', b)")
    case True
    then show ?thesis using Cons.prems by (simp add: spec_apply_def)
  next
    case False
    then have inrest: "(''/'', b) \<in> set rest" using Cons.prems by simp
    show ?thesis
      using p Cons.IH [OF inrest Cons.prems(2)]
      by (auto simp: spec_apply_def split: sum.splits)
  qed
qed

subsection \<open>Single numbers\<close>

text \<open>
  Claim C9. A token sequence of exactly one number token and no operator token
  evaluates to that number: the evaluator returns the parse of the token unchanged.
\<close>

theorem C9_single_number:
  assumes "number_count expr = 1" and "operator_count expr = 0"
    and "\<forall>t\<in>set expr. number_token ops t"
  shows "evaluateExpression ops expr = Inr (parseFloat ops (hd expr))"
proof -
  have "length expr = number_count expr + operator_count expr"
    unfolding number_count_def operator_count_def
    by (induction expr) auto
  then have "length expr = 1" using assms by simp
  then obtain t where t: "expr = [t]" by (cases expr) auto
  then show ?thesis
    using assms(3) by (simp add: evaluateExpression_def number_token_def Let_def)
qed

text \<open>Claim C9 at the sequence \<^verbatim>\<open>["42"]\<close>.\<close>

theorem C9_single_number_witness:
  "number_count [''42''] = 1 \<and> operator_count [''42''] = 0
   \<and> number_token exact_ops ''42''
   \<and> evaluateExpression exact_ops [''42''] = Inr (Some 42)"
proof -
  have h1: "number_count [''42''] = 1" by code_simp
  have h2: "operator_count [''42''] = 0" by code_simp
  have h3: "\<forall>t\<in>set [''42'']. number_token exact_ops t" by code_simp
  have v: "parseFloat exact_ops (hd [''42'']) = Some 42" by code_simp
  show ?thesis
    using h1 h2 h3 v C9_single_number [OF h1 h2 h3] by simp
qed

subsection \<open>Validation\<close>

text \<open>
  Claim C1 as stated fails. After \<^verbatim>\<open>2 + 3 =\<close> the keys \<^verbatim>\<open>+\<close> and \<^verbatim>\<open>3\<close>
  leave the sequence \<^verbatim>\<open>["5", "3"]\<close> for the next compute (the operator after a
  result is dropped). It has two number tokens and no operator token, so its count
  of numbers is not one more than its count of operators and it is not the
  single-number case; the evaluator does not throw but returns the first number,
  since its guard is \<^verbatim>\<open>numbers.length <= operators.length\<close>.
\<close>

theorem C1_surplus_number_counterexample:
  "pushed (run exact_ops initial_state
       (keys ''2'' @ [AppendOperator '' + ''] @ keys ''3'' @ [Calculate, AppendOperator '' + '']
        @ keys ''3'')) = [''5'', ''3'']
   \<and> number_count [''5'', ''3''] = 2 \<and> operator_count [''5'', ''3''] = 0
   \<and> evaluateExpression exact_ops [''5'', ''3''] = Inr (Some 5)"
  by code_simp

text \<open>
  Claim C1, amended. When every number token parses and the count of number tokens
  is less than or equal to the count of operator tokens, evaluation fails with
  InvalidExpression.
\<close>

theorem C1_too_few_numbers:
  assumes "\<forall>t\<in>set expr. is_operator t \<or> \<not> isNaN ops (parseFloat ops t)"
    and "number_count expr \<le> operator_count expr"
  shows "evaluateExpression ops expr = Inl InvalidExpression"
  using assms parse_tokens_ok [OF assms(1), of "[]" "[]"]
  by (auto simp: evaluateExpression_def number_count_def operator_count_def)

text \<open>Claim C1, amended, at the sequence \<^verbatim>\<open>["-", "5"]\<close>.\<close>

theorem C1_too_few_numbers_witness:
  "is_operator ''-'' \<and> \<not> isNaN exact_ops (parseFloat exact_ops ''5'')
   \<and> number_count [''-'', ''5''] \<le> operator_count [''-'', ''5'']
   \<and> evaluateExpression exact_ops [''-'', ''5''] = Inl InvalidExpression"
proof -
  have a: "is_operator ''-''" "\<not> isNaN exact_ops (parseFloat exact_ops ''5'')"
    by code_simp+
  then have h1: "\<forall>t\<in>set [''-'', ''5'']. is_operator t \<or> \<not> isNaN exact_ops (parseFloat exact_ops t)"
    by simp
  have h2: "number_count [''-'', ''5''] \<le> operator_count [''-'', ''5'']"
    by code_simp
  show ?thesis
    using a h2 C1_too_few_numbers [OF h1 h2] by simp
qed

subsection \<open>Precedence\<close>

text \<open>
  Claim C3. On every well-formed alternating sequence (a number token, then pairs of
  an operator token and a number token) the evaluator returns what the two-pass
  reading returns: every \<^verbatim>\<open>*\<close> and \<^verbatim>\<open>/\<close> collapsed from left to right, then
  the remaining \<^verbatim>\<open>+\<close> and \<^verbatim>\<open>-\<close> folded from the first remaining number
  (a division by zero in the first pass being the same failure on both sides).
  \<^verbatim>\<open>2 + 3 * 4\<close> evaluates to 14 and \<^verbatim>\<open>10 - 4 / 2\<close> to 8.
\<close>

theorem C3_two_tier_precedence:
  "(number_token ops t0 \<and> (\<forall>(op, t)\<in>set ps. is_operator op \<and> number_token ops t) \<longrightarrow>
      evaluateExpression ops (t0 # flatten ps) =
        spec_value ops (parseFloat ops t0) (map (\<lambda>(op, t). (op, parseFloat ops t)) ps))
   \<and> evaluateExpression exact_ops [''2'', ''+'', ''3'', ''*'', ''4''] = Inr (Some 14)
   \<and> evaluateExpression exact_ops [''10'', ''-'', ''4'', ''/'', ''2''] = Inr (Some 8)"
proof (intro conjI impI)
  assume wf: "number_token ops t0 \<and> (\<forall>(op, t)\<in>set ps. is_operator op \<and> number_token ops t)"
  then have sep: "\<forall>(op, t)\<in>set ps. is_operator op \<and> \<not> is_operator t"
    by (auto simp: number_token_def)
  have fo: "filter is_operator (flatten ps) = map fst ps"
    and fn: "filter (\<lambda>t. \<not> is_operator t) (flatten ps) = map snd ps"
    using filter_flatten_ops [OF sep] by simp_all
  have "\<forall>t\<in>set (flatten ps). is_operator t \<or> \<not> isNaN ops (parseFloat ops t)"
    using wf by (induction ps) (auto simp: number_token_def)
  then have allp: "\<forall>t\<in>set (t0 # flatten ps). is_operator t \<or> \<not> isNaN ops (parseFloat ops t)"
    using wf by (simp add: number_token_def)
  have t0: "\<not> is_operator t0" using wf by (simp add: number_token_def)
  have parsed: "parse_tokens ops (t0 # flatten ps) [] [] =
                Inr (parseFloat ops t0 # map (parseFloat ops) (map snd ps), map fst ps)"
    using parse_tokens_ok [OF allp, of "[]" "[]"] t0 fo fn by simp
  have zipped: "zip (map fst ps) (map (parseFloat ops) (map snd ps)) =
                map (\<lambda>(op, t). (op, parseFloat ops t)) ps"
    by (induction ps) auto
  show "evaluateExpression ops (t0 # flatten ps) =
        spec_value ops (parseFloat ops t0) (map (\<lambda>(op, t). (op, parseFloat ops t)) ps)"
    using evaluate_parsed [OF parsed] zipped by simp
next
  show "evaluateExpression exact_ops [''2'', ''+'', ''3'', ''*'', ''4''] = Inr (Some 14)"
    by code_simp
next
  show "evaluateExpression exact_ops [''10'', ''-'', ''4'', ''/'', ''2''] = Inr (Some 8)"
    by code_simp
qed

text \<open>Claim C3 at the sequence for \<^verbatim>\<open>2 + 3 * 4\<close>.\<close>

theorem C3_two_tier_precedence_witness:
  "number_token exact_ops ''2''
   \<and> is_operator ''+'' \<and> number_token exact_ops ''3''
   \<and> is_operator ''*'' \<and> number_token exact_ops ''4''
   \<and> evaluateExpression exact_ops (''2'' # flatten [(''+'', ''3''), (''*'', ''4'')]) =
       spec_value exact_ops (Some 2) [(''+'', Some 3), (''*'', Some 4)]
   \<and> spec_value exact_ops (Some 2) [(''+'', Some 3), (''*'', Some 4)] = Inr (Some 14)"
proof -
  have a: "number_token exact_ops ''2''" "is_operator ''+''" "number_token exact_ops ''3''"
    "is_operator ''*''" "number_token exact_ops ''4''"
    by code_simp+
  then have h: "number_token exact_ops ''2''
     \<and> (\<forall>(op, t)\<in>set [(''+'', ''3''), (''*'', ''4'')]. is_operator op \<and> number_token exact_ops t)"
    by simp
  have p: "parseFloat exact_ops ''2'' = Some 2"
    "map (\<lambda>(op, t). (op, parseFloat exact_ops t)) [(''+'', ''3''), (''*'', ''4'')] =
       [(''+'', Some 3), (''*'', Some 4)]"
    by code_simp+
  have v: "spec_value exact_ops (Some 2) [(''+'', Some 3), (''*'', Some 4)] = Inr (Some 14)"
    by code_simp
  have "evaluateExpression exact_ops (''2'' # flatten [(''+'', ''3''), (''*'', ''4'')]) =
        spec_value exact_ops (Some 2) [(''+'', Some 3), (''*'', Some 4)]"
    using h p C3_two_tier_precedence [of exact_ops "''2''" "[(''+'', ''3''), (''*'', ''4'')]"]
    by simp
  then show ?thesis
    using a v by simp
qed

subsection \<open>Division by zero\<close>

text \<open>
  Claim C4. When the arrays that the evaluator parses pass its validation and some
  \<^verbatim>\<open>/\<close> has a zero right operand at the moment it is applied, which is the
  number one place to the right of the operator's place, evaluation fails with
  DivideByZero, whatever the other operators are. \<^verbatim>\<open>5 / 0\<close> fails and
  \<^verbatim>\<open>8 * 2 / 0 + 1\<close> fails.
\<close>

theorem C4_divide_by_zero:
  "(parse_tokens ops expr [] [] = Inr (numbers, operators) \<and> length operators < length numbers
      \<and> k < length operators \<and> operators ! k = ''/'' \<and> eq_zero ops (numbers ! (k + 1)) \<longrightarrow>
      evaluateExpression ops expr = Inl DivideByZero)
   \<and> evaluateExpression exact_ops [''5'', ''/'', ''0''] = Inl DivideByZero
   \<and> evaluateExpression exact_ops [''8'', ''*'', ''2'', ''/'', ''0'', ''+'', ''1''] = Inl DivideByZero"
proof (intro conjI impI)
  assume h: "parse_tokens ops expr [] [] = Inr (numbers, operators) \<and> length operators < length numbers
      \<and> k < length operators \<and> operators ! k = ''/'' \<and> eq_zero ops (numbers ! (k + 1))"
  then have k: "k < length (zip operators (tl numbers))" by auto
  have k': "k < length (tl numbers)" using h by auto
  have "zip operators (tl numbers) ! k = (''/'', numbers ! (k + 1))"
    using h k' by (simp add: nth_tl)
  then have mem: "(''/'', numbers ! (k + 1)) \<in> set (zip operators (tl numbers))"
    using k by (metis nth_mem)
  have "spec_collapse ops (hd numbers) (zip operators (tl numbers)) = Inl DivideByZero"
    using spec_collapse_div0 [OF mem] h by simp
  then show "evaluateExpression ops expr = Inl DivideByZero"
    using evaluate_parsed [of ops expr numbers operators] h by (simp add: spec_value_def)
next
  show "evaluateExpression exact_ops [''5'', ''/'', ''0''] = Inl DivideByZero"
    by code_simp
next
  show "evaluateExpression exact_ops [''8'', ''*'', ''2'', ''/'', ''0'', ''+'', ''1''] = Inl DivideByZero"
    by code_simp
qed

text \<open>Claim C4 at the sequence for \<^verbatim>\<open>8 * 2 / 0 + 1\<close>.\<close>

theorem C4_divide_by_zero_witness:
  "parse_tokens exact_ops [''8'', ''*'', ''2'', ''/'', ''0'', ''+'', ''1''] [] [] =
     Inr ([Some 8, Some 2, Some 0, Some 1], [''*'', ''/'', ''+''])
   \<and> length [''*'', ''/'', ''+''] < length [Some 8, Some 2, Some 0, Some (1::rat)]
   \<and> (1::nat) < length [''*'', ''/'', ''+''] \<and> [''*'', ''/'', ''+''] ! 1 = ''/''
   \<and> eq_zero exact_ops ([Some 8, Some 2, Some 0, Some 1] ! (1 + 1))
   \<and> evaluateExpression exact_ops [''8'', ''*'', ''2'', ''/'', ''0'', ''+'', ''1''] = Inl DivideByZero"
proof -
  have h1: "parse_tokens exact_ops [''8'', ''*'', ''2'', ''/'', ''0'', ''+'', ''1''] [] [] =
     Inr ([Some 8, Some 2, Some 0, Some 1], [''*'', ''/'', ''+''])"
    by code_simp
  have h2: "eq_zero exact_ops ([Some 8, Some 2, Some 0, Some 1] ! (1 + 1))"
    by (simp add: exact_ops_def)
  show ?thesis
    using h1 h2
      C4_divide_by_zero [of exact_ops "[''8'', ''*'', ''2'', ''/'', ''0'', ''+'', ''1'']"
        "[Some 8, Some 2, Some 0, Some 1]" "[''*'', ''/'', ''+'']" 1]
    by simp
qed

section \<open>The builder\<close>

subsection \<open>The invariant\<close>

lemma plain_not_operator: "plain n \<Longrightarrow> n \<noteq> [] \<Longrightarrow> \<not> is_operator n"
  by (cases n) (auto simp: plain_def is_operator_def operator_char_def)

lemma plain_Nil: "plain []"
  by (simp add: plain_def)

lemma plain_append: "plain a \<Longrightarrow> plain b \<Longrightarrow> plain (a @ b)"
  by (cases a) (auto simp: plain_def)

lemma plain_butlast: "plain a \<Longrightarrow> plain (butlast a)"
  by (cases a) (auto simp: plain_def)

lemma digit_or_point_plain: "digit_or_point d \<Longrightarrow> plain d"
  unfolding digit_or_point_def plain_def operator_char_def by auto

lemma pairs_snoc2: "pairs (e @ [n, t]) = (pairs e \<and> plain n \<and> n \<noteq> [])"
  by (induction e rule: pairs.induct) auto

lemma pairs_even: "pairs e \<Longrightarrow> even (length e)"
  by (induction e rule: pairs.induct) auto

lemma pairs_decomp:
  assumes "pairs e" and "e \<noteq> []"
  shows "e = butlast (butlast e) @ [last (butlast e), last e] \<and> butlast e \<noteq> []"
proof -
  have "even (length e)" using assms(1) by (rule pairs_even)
  then have "length e \<noteq> 1" by auto
  then have b: "butlast e \<noteq> []" using assms(2) by (cases e) auto
  obtain ys y where e: "e = ys @ [y]" using assms(2) by (cases e rule: rev_cases) auto
  then have "ys \<noteq> []" using b by simp
  then obtain zs z where "ys = zs @ [z]" by (cases ys rule: rev_cases) auto
  then show ?thesis using e by (simp add: butlast_append)
qed

lemma pairs_butlast2:
  assumes "pairs e" and "e \<noteq> []"
  shows "pairs (butlast (butlast e)) \<and> plain (last (butlast e)) \<and> last (butlast e) \<noteq> []"
proof -
  have "e = butlast (butlast e) @ [last (butlast e), last e]"
    using pairs_decomp [OF assms] by simp
  then have "pairs (butlast (butlast e) @ [last (butlast e), last e])"
    using assms(1) by simp
  then show ?thesis by (simp only: pairs_snoc2) simp
qed

lemma shape_Nil: "shape []"
  by (simp add: shape_def)

lemma shape_single: "\<not> is_operator x \<Longrightarrow> shape [x]"
  by (simp add: shape_def)

lemma shape_snoc2:
  assumes "shape e" and "plain n" and "n \<noteq> []"
  shows "shape (e @ [n, t])"
proof (cases "pairs e")
  case True
  then have "pairs (e @ [n, t])" using assms by (simp only: pairs_snoc2) simp
  then show ?thesis by (simp add: shape_def)
next
  case False
  then have e: "e \<noteq> []" "\<not> is_operator (hd e)" "pairs (tl e)"
    using assms(1) by (auto simp: shape_def)
  have "pairs (tl e @ [n, t])" using e(3) assms by (simp only: pairs_snoc2) simp
  then show ?thesis using e by (simp add: shape_def)
qed

lemma shape_butlast2:
  assumes "shape e" and "e \<noteq> []"
  shows "shape (butlast (butlast e)) \<and> plain (pop_or_empty (butlast e))"
proof (cases "pairs e")
  case True
  then show ?thesis
    using pairs_butlast2 [OF True assms(2)] pairs_decomp [OF True assms(2)]
    by (simp add: shape_def pop_or_empty_def)
next
  case False
  then obtain x rest where e: "e = x # rest" and x: "\<not> is_operator x" and r: "pairs rest"
    using assms by (cases e) (auto simp: shape_def)
  show ?thesis
  proof (cases "rest = []")
    case True
    then show ?thesis using e by (simp add: shape_Nil pop_or_empty_def plain_Nil)
  next
    case nonempty: False
    have d: "butlast rest \<noteq> []"
      using pairs_decomp [OF r nonempty] by simp
    have p: "pairs (butlast (butlast rest))" "plain (last (butlast rest))"
      using pairs_butlast2 [OF r nonempty] by simp_all
    show ?thesis
      using e x nonempty d p by (simp add: shape_def pop_or_empty_def)
  qed
qed

lemma pairs_no_operator_pattern:
  "pairs e \<Longrightarrow> \<not> starts_with_operator e \<and> \<not> adjacent_operators e"
proof (induction e rule: pairs.induct)
  case 1
  then show ?case by simp
next
  case (2 t)
  then show ?case by simp
next
  case (3 n t rest)
  then have ih: "\<not> starts_with_operator rest" "\<not> adjacent_operators rest"
    and n: "\<not> is_operator n"
    by (simp_all add: plain_not_operator)
  have "\<not> adjacent_operators (t # rest)"
    using ih by (cases rest) auto
  then show ?case using n by simp
qed

lemma shape_no_operator_pattern:
  assumes "shape e"
  shows "\<not> starts_with_operator e \<and> \<not> adjacent_operators e"
proof (cases "pairs e")
  case True
  then show ?thesis by (rule pairs_no_operator_pattern)
next
  case False
  then obtain x rest where e: "e = x # rest" and x: "\<not> is_operator x" and r: "pairs rest"
    using assms by (cases e) (auto simp: shape_def)
  have "\<not> adjacent_operators (x # rest)"
    using pairs_no_operator_pattern [OF r] x by (cases rest) auto
  then show ?thesis using e x by simp
qed

lemma message_not_operator: "\<not> is_operator (message err)"
  by (cases err) (simp_all add: is_operator_def)

lemma inv_live:
  "\<not> isResultDisplayed s \<Longrightarrow> builder_inv s = (plain (currentInput s) \<and> shape (expression s))"
  by (simp add: builder_inv_def)

lemma inv_reset:
  "builder_inv s \<Longrightarrow>
   \<not> isResultDisplayed (reset_if_displayed s) \<and> plain (currentInput (reset_if_displayed s))
   \<and> shape (expression (reset_if_displayed s))"
  by (simp add: builder_inv_def reset_if_displayed_def plain_Nil shape_Nil)

lemma inv_appendNumber:
  assumes "builder_inv s" and "digit_or_point digit"
  shows "builder_inv (appendNumber digit s)"
proof -
  let ?s1 = "reset_if_displayed s"
  have s1: "\<not> isResultDisplayed ?s1" "plain (currentInput ?s1)" "shape (expression ?s1)"
    using inv_reset [OF assms(1)] by simp_all
  have "plain digit" using assms(2) by (rule digit_or_point_plain)
  then have "plain (currentInput ?s1 @ digit)" using s1(2) by (simp add: plain_append)
  then show ?thesis
    using s1 by (simp add: appendNumber_def Let_def inv_live)
qed

lemma inv_appendOperator:
  assumes "builder_inv s"
    and "op \<noteq> '' - '' \<or> (currentInput s \<noteq> [] \<and> plain (currentInput s))"
  shows "builder_inv (appendOperator op s)"
proof (cases "isResultDisplayed s")
  case True
  then have r: "\<not> is_operator (currentInput s)" using assms(1) by (simp add: builder_inv_def)
  show ?thesis
  proof (cases "op = '' - ''")
    case minus: True
    then have "shape ([] @ [currentInput s, trim op])"
      using assms(2) shape_Nil by (intro shape_snoc2) simp_all
    then show ?thesis
      using True minus by (simp add: appendOperator_def inv_live plain_Nil)
  next
    case False
    then show ?thesis
      using True r by (simp add: appendOperator_def inv_live plain_Nil shape_single)
  qed
next
  case False
  then have t: "plain (currentInput s)" and sh: "shape (expression s)"
    using assms(1) by (simp_all add: builder_inv_def)
  show ?thesis
  proof (cases "currentInput s = []")
    case True
    then show ?thesis using False assms by (simp add: appendOperator_def)
  next
    case nonempty: False
    have "shape (expression s @ [currentInput s, trim op])"
      using sh t nonempty by (rule shape_snoc2)
    then show ?thesis
      using False nonempty by (simp add: appendOperator_def inv_live plain_Nil)
  qed
qed

lemma inv_backspace:
  assumes "builder_inv s"
  shows "builder_inv (backspace s)"
proof -
  let ?s1 = "reset_if_displayed s"
  have s1: "\<not> isResultDisplayed ?s1" "plain (currentInput ?s1)" "shape (expression ?s1)"
    using inv_reset [OF assms(1)] by simp_all
  show ?thesis
  proof (cases "currentInput ?s1 \<noteq> []")
    case True
    then show ?thesis
      using s1 by (simp add: backspace_def Let_def inv_live plain_butlast)
  next
    case False
    show ?thesis
    proof (cases "expression ?s1 = []")
      case True
      then show ?thesis using False s1 by (simp add: backspace_def Let_def inv_live)
    next
      case nonempty: False
      then show ?thesis
        using False s1 shape_butlast2 [OF s1(3) nonempty]
        by (simp add: backspace_def Let_def inv_live)
    qed
  qed
qed

lemma inv_clear: "builder_inv (clearDisplay s)" "builder_inv (clearAll s)"
  by (simp_all add: builder_inv_def clearDisplay_def clearAll_def plain_Nil shape_Nil)

lemma inv_calculate:
  assumes "builder_inv s" and "\<forall>n. \<not> is_operator (formatResult ops n)"
  shows "builder_inv (calculate ops s)"
proof (cases "isResultDisplayed s")
  case True
  then show ?thesis using assms(1) by (simp add: calculate_def)
next
  case False
  then have t: "plain (currentInput s)" and sh: "shape (expression s)"
    using assms(1) by (simp_all add: builder_inv_def)
  show ?thesis
  proof (cases "skipped ops (pushed s)")
    case True
    have "shape (pushed s)"
    proof (cases "currentInput s = []")
      case True
      then show ?thesis using sh by (simp add: pushed_def)
    next
      case nonempty: False
      then have "length (expression s @ [currentInput s]) = 1"
        using True by (auto simp: skipped_def pushed_def)
      then have "expression s = []" by simp
      then show ?thesis
        using nonempty t by (simp add: pushed_def shape_single plain_not_operator)
    qed
    then show ?thesis
      using False True t by (simp add: calculate_def inv_live)
  next
    case ns: False
    show ?thesis
    proof (cases "evaluateExpression ops (pushed s)")
      case (Inl err)
      then show ?thesis
        using False ns by (simp add: calculate_def builder_inv_def message_not_operator)
    next
      case (Inr r)
      then show ?thesis
        using False ns assms(2) by (simp add: calculate_def builder_inv_def Let_def)
    qed
  qed
qed

lemma inv_step:
  "builder_inv s \<Longrightarrow> permitted s a \<Longrightarrow> \<forall>n. \<not> is_operator (formatResult ops n) \<Longrightarrow>
   builder_inv (step ops s a)"
  by (cases a) (simp_all add: inv_appendNumber inv_appendOperator inv_backspace inv_clear inv_calculate)

lemma inv_run:
  "builder_inv s \<Longrightarrow> all_permitted ops s as \<Longrightarrow> \<forall>n. \<not> is_operator (formatResult ops n) \<Longrightarrow>
   builder_inv (run ops s as)"
  by (induction as arbitrary: s) (simp_all add: inv_step)

lemma inv_initial: "builder_inv initial_state"
  by (simp add: builder_inv_def initial_state_def plain_Nil shape_Nil)

lemma inv_no_operator_pattern:
  "builder_inv s \<Longrightarrow> \<not> starts_with_operator (expression s) \<and> \<not> adjacent_operators (expression s)"
  by (cases "isResultDisplayed s") (simp_all add: builder_inv_def shape_no_operator_pattern)

subsection \<open>What the reference instance prints is no operator\<close>

lemma plain_char_not_operator: "c \<in> set str \<Longrightarrow> c \<notin> set ''+-*/'' \<Longrightarrow> \<not> is_operator str"
  by (auto simp: is_operator_def)

lemma digit_char_is_digit: "is_digit (digit_char d)"
proof -
  have "nat (d mod 10) < length ''0123456789''" by simp
  then have "''0123456789'' ! nat (d mod 10) \<in> set ''0123456789''" by (rule nth_mem)
  then show ?thesis by (simp only: is_digit_def digit_char_def)
qed

lemma show_int_last_digit: "is_digit (last (show_int n)) \<and> show_int n \<noteq> []"
  by (subst (1 2) show_int.simps) (simp add: digit_char_is_digit)

lemma exact_digits_not_operator: "\<not> is_operator (sign @ exact_digits q)"
proof -
  have point: "\<And>a b. \<not> is_operator (sign @ a @ ''.'' @ b)"
    by (rule plain_char_not_operator [of "CHR ''.''"]) simp_all
  have expo: "\<And>a b. \<not> is_operator (sign @ a @ ''e'' @ b)"
    by (rule plain_char_not_operator [of "CHR ''e''"]) simp_all
  have zero: "\<And>b. \<not> is_operator (sign @ ''0.'' @ b)"
    by (rule plain_char_not_operator [of "CHR ''.''"]) simp_all
  have digits: "\<And>n b. \<not> is_operator (sign @ show_int n @ b)"
  proof -
    fix n b
    have "last (show_int n) \<in> set (sign @ show_int n @ b)"
      using show_int_last_digit [of n] by simp
    moreover have "last (show_int n) \<notin> set ''+-*/''"
      using show_int_last_digit [of n] by (auto simp: is_digit_def)
    ultimately show "\<not> is_operator (sign @ show_int n @ b)" by (rule plain_char_not_operator)
  qed
  show ?thesis
    unfolding exact_digits_def Let_def
    using point expo zero digits
    by (simp only: split: if_splits) (metis append.assoc)
qed

lemma exact_toString_not_operator: "\<not> is_operator (exact_toString x)"
proof (cases x)
  case None
  then show ?thesis by (simp add: exact_toString_def is_operator_def)
next
  case (Some q)
  show ?thesis
  proof (cases "q = 0")
    case True
    then show ?thesis using Some by (simp add: exact_toString_def is_operator_def)
  next
    case False
    then show ?thesis
      using Some exact_digits_not_operator [of "''-''" "\<bar>q\<bar>"]
        exact_digits_not_operator [of "[]" "\<bar>q\<bar>"]
      by (auto simp: exact_toString_def abs_if split: if_splits)
  qed
qed

lemma exact_toExponential_not_operator: "\<not> is_operator (exact_toExponential x f)"
proof (cases x)
  case None
  then show ?thesis by (simp add: exact_toExponential_def is_operator_def)
next
  case (Some q)
  have "CHR ''e'' \<in> set (exact_toExponential (Some q) f)"
    by (simp add: exact_toExponential_def Let_def)
  then have "\<not> is_operator (exact_toExponential (Some q) f)"
    by (rule plain_char_not_operator) simp
  then show ?thesis using Some by simp
qed

lemma exact_format_not_operator: "\<not> is_operator (formatResult exact_ops n)"
  by (simp add: formatResult_def Let_def exact_ops_def exact_toString_not_operator
      exact_toExponential_not_operator)

subsection \<open>Operators out of place\<close>

text \<open>
  Claim C2 as stated fails. From the initial state the key \<^verbatim>\<open>-\<close>, which calls
  \<^verbatim>\<open>appendOperator(' - ')\<close>, leaves a token sequence that starts with an
  operator; after \<^verbatim>\<open>3\<close> and \<^verbatim>\<open>+\<close> the same key leaves two adjacent
  operators.
\<close>

theorem C2_minus_counterexample:
  "starts_with_operator (expression (run exact_ops initial_state [AppendOperator '' - '']))
   \<and> adjacent_operators (expression (run exact_ops initial_state
        (keys ''3'' @ [AppendOperator '' + '', AppendOperator '' - ''])))"
  by code_simp

text \<open>
  Claim C2, amended. In every state reached from the initial state by digits, points,
  operators, backspace, clear, clear-all and compute, where the padded minus
  \<^verbatim>\<open>' - '\<close> is applied only to a buffer that is not empty and does not start
  with an operator character, the token sequence does not start with an operator
  token and holds no two adjacent operator tokens. The number operations are any
  whose formatted results are never one of the four operator strings.
\<close>

theorem C2_no_operator_pattern:
  assumes "all_permitted ops initial_state as"
    and "\<forall>n. \<not> is_operator (formatResult ops n)"
  shows "\<not> starts_with_operator (expression (run ops initial_state as))
         \<and> \<not> adjacent_operators (expression (run ops initial_state as))"
proof -
  have "builder_inv (run ops initial_state as)"
    using inv_initial assms by (rule inv_run)
  then show ?thesis by (rule inv_no_operator_pattern)
qed

text \<open>Claim C2, amended, at a run that types, deletes, computes and goes on.\<close>

theorem C2_no_operator_pattern_witness:
  "all_permitted exact_ops initial_state
     (keys ''12'' @ [AppendOperator '' - ''] @ keys ''.5'' @ [AppendOperator '' * '', Backspace,
        Calculate, AppendOperator '' - ''] @ keys ''3'' @ [AppendOperator '' / ''])
   \<and> (\<forall>n. \<not> is_operator (formatResult exact_ops n))
   \<and> expression (run exact_ops initial_state
        (keys ''12'' @ [AppendOperator '' - ''] @ keys ''.5'' @ [AppendOperator '' * '', Backspace,
           Calculate, AppendOperator '' - ''] @ keys ''3'' @ [AppendOperator '' / ''])) =
       [''11.5'', ''-'', ''3'', ''/'']
   \<and> \<not> starts_with_operator [''11.5'', ''-'', ''3'', ''/'']
   \<and> \<not> adjacent_operators [''11.5'', ''-'', ''3'', ''/'']"
proof -
  let ?as = "keys ''12'' @ [AppendOperator '' - ''] @ keys ''.5'' @ [AppendOperator '' * '', Backspace,
        Calculate, AppendOperator '' - ''] @ keys ''3'' @ [AppendOperator '' / '']"
  have h1: "all_permitted exact_ops initial_state ?as" by code_simp
  have h2: "\<forall>n. \<not> is_operator (formatResult exact_ops n)"
    by (simp add: exact_format_not_operator)
  have v: "expression (run exact_ops initial_state ?as) = [''11.5'', ''-'', ''3'', ''/'']"
    by code_simp
  show ?thesis
    using h1 h2 v C2_no_operator_pattern [OF h1 h2] by simp
qed

subsection \<open>Backspace\<close>

text \<open>
  Claim C8 as stated fails. After \<^verbatim>\<open>0\<close>, compute and backspace no result is
  displayed, the buffer is empty and the token sequence is \<^verbatim>\<open>["0"]\<close>, which is
  not empty. Backspace removes that token, which is no operator, and moves nothing
  into the buffer. After \<^verbatim>\<open>3\<close>, \<^verbatim>\<open>+\<close> and \<^verbatim>\<open>-\<close> the sequence is
  \<^verbatim>\<open>["3", "+", "-"]\<close> and backspace moves an operator into the buffer, not a
  number.
\<close>

theorem C8_single_token_counterexample:
  "\<not> isResultDisplayed (run exact_ops initial_state (keys ''0'' @ [Calculate, Backspace]))
   \<and> currentInput (run exact_ops initial_state (keys ''0'' @ [Calculate, Backspace])) = []
   \<and> expression (run exact_ops initial_state (keys ''0'' @ [Calculate, Backspace])) = [''0'']
   \<and> \<not> is_operator ''0''
   \<and> currentInput (backspace (run exact_ops initial_state (keys ''0'' @ [Calculate, Backspace]))) = []
   \<and> expression (backspace (run exact_ops initial_state (keys ''0'' @ [Calculate, Backspace]))) = []
   \<and> expression (run exact_ops initial_state
         (keys ''3'' @ [AppendOperator '' + '', AppendOperator '' - ''])) = [''3'', ''+'', ''-'']
   \<and> currentInput (run exact_ops initial_state
         (keys ''3'' @ [AppendOperator '' + '', AppendOperator '' - ''])) = []
   \<and> currentInput (backspace (run exact_ops initial_state
         (keys ''3'' @ [AppendOperator '' + '', AppendOperator '' - '']))) = ''+''
   \<and> is_operator ''+''"
  by code_simp

text \<open>
  Claim C8, amended. In a state with no result displayed and an empty buffer,
  backspace on a token sequence of at least two tokens removes the last token and
  moves the token before it into the buffer, whatever kinds the two tokens have; on
  a sequence of one token it removes the token and leaves the buffer empty. From
  \<^verbatim>\<open>["3", "+"]\<close> and an empty buffer it yields the buffer \<^verbatim>\<open>"3"\<close> and an
  empty sequence.
\<close>

theorem C8_backspace_reopens:
  "(\<not> isResultDisplayed s \<and> currentInput s = [] \<and> expression s = ts @ [a, b] \<longrightarrow>
      backspace s = s\<lparr>currentInput := a, expression := ts\<rparr>)
   \<and> (\<not> isResultDisplayed s' \<and> currentInput s' = [] \<and> expression s' = [c] \<longrightarrow>
      backspace s' = s'\<lparr>expression := []\<rparr>)
   \<and> backspace \<lparr>currentInput = [], expression = [''3'', ''+''], history = h,
        isResultDisplayed = False\<rparr> =
      \<lparr>currentInput = ''3'', expression = [], history = h, isResultDisplayed = False\<rparr>"
  by (auto simp: backspace_def reset_if_displayed_def Let_def pop_or_empty_def butlast_append)

text \<open>
  Claim C8, amended, at the state after \<^verbatim>\<open>3\<close> and \<^verbatim>\<open>+\<close> and at the state
  after \<^verbatim>\<open>0\<close>, compute and backspace.
\<close>

theorem C8_backspace_reopens_witness:
  "\<not> isResultDisplayed (run exact_ops initial_state (keys ''3'' @ [AppendOperator '' + '']))
   \<and> currentInput (run exact_ops initial_state (keys ''3'' @ [AppendOperator '' + ''])) = []
   \<and> expression (run exact_ops initial_state (keys ''3'' @ [AppendOperator '' + ''])) =
       [] @ [''3'', ''+'']
   \<and> backspace (run exact_ops initial_state (keys ''3'' @ [AppendOperator '' + ''])) =
       \<lparr>currentInput = ''3'', expression = [], history = [], isResultDisplayed = False\<rparr>
   \<and> \<not> isResultDisplayed (run exact_ops initial_state (keys ''0'' @ [Calculate, Backspace]))
   \<and> currentInput (run exact_ops initial_state (keys ''0'' @ [Calculate, Backspace])) = []
   \<and> expression (run exact_ops initial_state (keys ''0'' @ [Calculate, Backspace])) = [''0'']
   \<and> backspace (run exact_ops initial_state (keys ''0'' @ [Calculate, Backspace])) =
       \<lparr>currentInput = [], expression = [], history = [], isResultDisplayed = False\<rparr>"
proof -
  let ?s = "run exact_ops initial_state (keys ''3'' @ [AppendOperator '' + ''])"
  let ?s' = "run exact_ops initial_state (keys ''0'' @ [Calculate, Backspace])"
  have s: "?s = \<lparr>currentInput = [], expression = [''3'', ''+''], history = [],
                 isResultDisplayed = False\<rparr>"
    by code_simp
  have s': "?s' = \<lparr>currentInput = [], expression = [''0''], history = [],
                   isResultDisplayed = False\<rparr>"
    by code_simp
  have h: "\<not> isResultDisplayed ?s \<and> currentInput ?s = [] \<and> expression ?s = [] @ [''3'', ''+'']"
    by (simp add: s)
  have h': "\<not> isResultDisplayed ?s' \<and> currentInput ?s' = [] \<and> expression ?s' = [''0'']"
    by (simp add: s')
  have "backspace ?s = ?s\<lparr>currentInput := ''3'', expression := []\<rparr>"
    and "backspace ?s' = ?s'\<lparr>expression := []\<rparr>"
    using h h' C8_backspace_reopens [of ?s "[]" "''3''" "''+''" ?s' "''0''"] by blast+
  then show ?thesis
    using h h' by (simp add: s s')
qed

section \<open>Compute\<close>

subsection \<open>Failures\<close>

text \<open>
  Claim C7. When a compute action gets to the evaluation (no result is displayed and
  the early return is not taken) and the evaluation fails, whatever the failure, the
  buffer becomes the failure's message, the token sequence becomes empty, the flag
  becomes true and the history is left as it was.
\<close>

theorem C7_failure_committed:
  assumes "\<not> isResultDisplayed s" and "\<not> skipped ops (pushed s)"
    and "evaluateExpression ops (pushed s) = Inl err"
  shows "calculate ops s =
         \<lparr>currentInput = message err, expression = [], history = history s,
          isResultDisplayed = True\<rparr>"
  using assms by (simp add: calculate_def)

text \<open>Claim C7 at the state that holds \<^verbatim>\<open>5 /\<close> and the pending input \<^verbatim>\<open>0\<close>.\<close>

theorem C7_failure_committed_witness:
  "\<not> isResultDisplayed \<lparr>currentInput = ''0'', expression = [''5'', ''/''], history = [],
       isResultDisplayed = False\<rparr>
   \<and> \<not> skipped exact_ops (pushed \<lparr>currentInput = ''0'', expression = [''5'', ''/''], history = [],
       isResultDisplayed = False\<rparr>)
   \<and> evaluateExpression exact_ops (pushed \<lparr>currentInput = ''0'', expression = [''5'', ''/''],
       history = [], isResultDisplayed = False\<rparr>) = Inl DivideByZero
   \<and> calculate exact_ops \<lparr>currentInput = ''0'', expression = [''5'', ''/''], history = [],
       isResultDisplayed = False\<rparr> =
       \<lparr>currentInput = ''Cannot divide by zero'', expression = [], history = [],
        isResultDisplayed = True\<rparr>"
proof -
  let ?s = "\<lparr>currentInput = ''0'', expression = [''5'', ''/''], history = [],
       isResultDisplayed = False\<rparr>"
  have h1: "\<not> isResultDisplayed ?s" by simp
  have h2: "\<not> skipped exact_ops (pushed ?s)" by code_simp
  have h3: "evaluateExpression exact_ops (pushed ?s) = Inl DivideByZero" by code_simp
  show ?thesis
    using h1 h2 h3 C7_failure_committed [OF h1 h2 h3] by simp
qed

subsection \<open>A pending zero\<close>

text \<open>
  Claim C10. In a state with no result displayed, an empty token sequence and a
  pending input that parses to zero, compute commits no result: the flag stays
  false, the history and the buffer are unchanged. The one change is that the input
  has been pushed onto the token sequence.
\<close>

theorem C10_zero_skipped:
  assumes "\<not> isResultDisplayed s" and "expression s = []" and "currentInput s \<noteq> []"
    and "eq_zero ops (parseFloat ops (currentInput s))"
  shows "calculate ops s = s\<lparr>expression := [currentInput s]\<rparr>
         \<and> \<not> isResultDisplayed (calculate ops s)
         \<and> history (calculate ops s) = history s
         \<and> currentInput (calculate ops s) = currentInput s"
  using assms by (simp add: calculate_def pushed_def skipped_def falsy_def)

text \<open>Claim C10 at the state after the key \<^verbatim>\<open>0\<close>.\<close>

theorem C10_zero_skipped_witness:
  "\<not> isResultDisplayed (run exact_ops initial_state (keys ''0''))
   \<and> expression (run exact_ops initial_state (keys ''0'')) = []
   \<and> currentInput (run exact_ops initial_state (keys ''0'')) \<noteq> []
   \<and> eq_zero exact_ops (parseFloat exact_ops (currentInput (run exact_ops initial_state (keys ''0''))))
   \<and> calculate exact_ops (run exact_ops initial_state (keys ''0'')) =
       \<lparr>currentInput = ''0'', expression = [''0''], history = [], isResultDisplayed = False\<rparr>"
proof -
  let ?s = "run exact_ops initial_state (keys ''0'')"
  have s: "?s = \<lparr>currentInput = ''0'', expression = [], history = [], isResultDisplayed = False\<rparr>"
    by code_simp
  have h1: "\<not> isResultDisplayed ?s" by (simp add: s)
  have h2: "expression ?s = []" by (simp add: s)
  have h3: "currentInput ?s \<noteq> []" by (simp add: s)
  have h4: "eq_zero exact_ops (parseFloat exact_ops (currentInput ?s))" by code_simp
  show ?thesis
    using h1 h2 h3 h4 C10_zero_skipped [OF h1 h2 h3 h4] by (simp add: s)
qed

subsection \<open>The history\<close>

lemma push_history_last_10:
  assumes "length h \<le> 10"
  shows "push_history h e = last_10 (h @ [e])"
proof (cases "length h = 10")
  case True
  have "last_10 (h @ [e]) = drop (Suc 0) (h @ [e])"
    using True by (simp add: last_10_def)
  also have "\<dots> = tl (h @ [e])" by (simp only: drop_Suc drop_0)
  finally show ?thesis using True by (simp add: push_history_def Let_def)
next
  case False
  then have "length h < 10" using assms by simp
  then show ?thesis by (simp add: push_history_def last_10_def Let_def)
qed

lemma last_10_short: "length xs \<le> 10 \<Longrightarrow> last_10 xs = xs"
  by (simp add: last_10_def)

lemma length_last_10: "length (last_10 xs) \<le> 10"
  by (simp add: last_10_def)

lemma last_10_append: "last_10 (last_10 xs @ ys) = last_10 (xs @ ys)"
proof (cases "length xs \<le> 10")
  case True
  then show ?thesis by (simp add: last_10_short)
next
  case False
  then have "length xs - 10 + length ys = length xs + length ys - 10" by simp
  then show ?thesis using False by (simp add: last_10_def add.commute)
qed

lemma calculate_history:
  "length (history s) \<le> 10 \<Longrightarrow>
   history (calculate ops s) = last_10 (history s @ added ops s Calculate)"
  by (auto simp: calculate_def succeeds_def Let_def push_history_last_10 last_10_short
      split: sum.splits)

lemma step_history:
  "a \<noteq> ClearAll \<Longrightarrow> length (history s) \<le> 10 \<Longrightarrow>
   history (step ops s a) = last_10 (history s @ added ops s a)"
  by (cases a)
     (simp_all add: calculate_history last_10_short appendNumber_def appendOperator_def
        backspace_def clearDisplay_def reset_if_displayed_def Let_def)

lemma step_history_length:
  "length (history s) \<le> 10 \<Longrightarrow> length (history (step ops s a)) \<le> 10"
proof (cases "a = ClearAll")
  case True
  then show ?thesis by (simp add: clearAll_def)
next
  case False
  assume "length (history s) \<le> 10"
  then show ?thesis using step_history [OF False, of s ops] by (simp add: length_last_10)
qed

lemma run_history_length:
  "length (history s) \<le> 10 \<Longrightarrow> length (history (run ops s as)) \<le> 10"
  by (induction as arbitrary: s) (simp_all add: step_history_length)

lemma run_history:
  "ClearAll \<notin> set as \<Longrightarrow> length (history s) \<le> 10 \<Longrightarrow>
   history (run ops s as) = last_10 (history s @ added_all ops s as)"
proof (induction as arbitrary: s)
  case Nil
  then show ?case by (simp add: last_10_short)
next
  case (Cons a as)
  then have a: "a \<noteq> ClearAll" and as: "ClearAll \<notin> set as" by auto
  have len: "length (history (step ops s a)) \<le> 10"
    using Cons.prems(2) by (rule step_history_length)
  have "history (run ops s (a # as)) =
        last_10 (history (step ops s a) @ added_all ops (step ops s a) as)"
    using Cons.IH [OF as len] by simp
  also have "\<dots> = last_10 (last_10 (history s @ added ops s a) @ added_all ops (step ops s a) as)"
    using step_history [OF a Cons.prems(2), of ops] by simp
  also have "\<dots> = last_10 ((history s @ added ops s a) @ added_all ops (step ops s a) as)"
    by (rule last_10_append)
  finally show ?case by simp
qed

text \<open>
  Claim C6. In every state reached from the initial state, by any actions, the
  history holds at most 10 entries. A successful computation on a history of 10
  drops the oldest entry and appends its own. After a run without clear-all the
  history is the last 10 of the entries that the run's successful computations
  added, in their order; after 11 of them the first is gone and entries 2 to 11
  remain.
\<close>

theorem C6_history_bound:
  "length (history (run ops initial_state as)) \<le> 10
   \<and> (succeeds ops s \<and> length (history s) = 10 \<longrightarrow>
        history (calculate ops s) = tl (history s) @ added ops s Calculate)
   \<and> (ClearAll \<notin> set as \<longrightarrow>
        history (run ops initial_state as) = last_10 (added_all ops initial_state as))
   \<and> (ClearAll \<notin> set as \<and> length (added_all ops initial_state as) = 11 \<longrightarrow>
        history (run ops initial_state as) = tl (added_all ops initial_state as))"
proof (intro conjI impI)
  show "length (history (run ops initial_state as)) \<le> 10"
    by (rule run_history_length) (simp add: initial_state_def)
next
  assume h: "succeeds ops s \<and> length (history s) = 10"
  then have "history s \<noteq> []" by auto
  then show "history (calculate ops s) = tl (history s) @ added ops s Calculate"
    using h calculate_history [of s ops] by (simp add: last_10_def drop_Suc)
next
  assume "ClearAll \<notin> set as"
  then show "history (run ops initial_state as) = last_10 (added_all ops initial_state as)"
    using run_history [of as initial_state ops] by (simp add: initial_state_def)
next
  assume h: "ClearAll \<notin> set as \<and> length (added_all ops initial_state as) = 11"
  then have "history (run ops initial_state as) = last_10 (added_all ops initial_state as)"
    using run_history [of as initial_state ops] by (simp add: initial_state_def)
  then show "history (run ops initial_state as) = tl (added_all ops initial_state as)"
    using h by (simp add: last_10_def drop_Suc)
qed

text \<open>
  Claim C6 at the run that types and computes 1 to 11, and at the state before its
  last computation.
\<close>

theorem C6_history_bound_witness:
  "succeeds exact_ops (run exact_ops initial_state (butlast eleven))
   \<and> length (history (run exact_ops initial_state (butlast eleven))) = 10
   \<and> history (calculate exact_ops (run exact_ops initial_state (butlast eleven))) =
       tl (history (run exact_ops initial_state (butlast eleven)))
       @ added exact_ops (run exact_ops initial_state (butlast eleven)) Calculate
   \<and> ClearAll \<notin> set eleven
   \<and> length (added_all exact_ops initial_state eleven) = 11
   \<and> history (run exact_ops initial_state eleven) = tl (added_all exact_ops initial_state eleven)
   \<and> map h_expression (added_all exact_ops initial_state eleven) =
       [''1'', ''2'', ''3'', ''4'', ''5'', ''6'', ''7'', ''8'', ''9'', ''10'', ''11'']
   \<and> map h_expression (history (run exact_ops initial_state eleven)) =
       [''2'', ''3'', ''4'', ''5'', ''6'', ''7'', ''8'', ''9'', ''10'', ''11'']"
proof -
  let ?s = "run exact_ops initial_state (butlast eleven)"
  have g1: "succeeds exact_ops ?s" by code_simp
  have g2: "length (history ?s) = 10" by code_simp
  have h1: "ClearAll \<notin> set eleven" by code_simp
  have h2: "map h_expression (added_all exact_ops initial_state eleven) =
       [''1'', ''2'', ''3'', ''4'', ''5'', ''6'', ''7'', ''8'', ''9'', ''10'', ''11'']"
    by code_simp
  then have "length (map h_expression (added_all exact_ops initial_state eleven)) = 11"
    by simp
  then have h3: "length (added_all exact_ops initial_state eleven) = 11" by simp
  have t: "history (calculate exact_ops ?s) = tl (history ?s) @ added exact_ops ?s Calculate"
    "history (run exact_ops initial_state eleven) = tl (added_all exact_ops initial_state eleven)"
    using g1 g2 h1 h3 C6_history_bound [of exact_ops eleven ?s] by blast+
  show ?thesis
    using g1 g2 h1 h2 h3 t by (simp add: map_tl)
qed

section \<open>The formatter\<close>

text \<open>
  Claim C5 at the number whose plain representation is \<^verbatim>\<open>-1234.567891\<close>. The
  representation has 10 digits, and when the absolute value is neither above
  \<^verbatim>\<open>1e7\<close> nor below \<^verbatim>\<open>1e-7\<close> the claim gives the plain string; the
  formatter counts the minus sign with the digits and returns
  \<^verbatim>\<open>toExponential(4)\<close>, for any number operations.
\<close>

theorem C5_sign_counted:
  assumes "toString ops x = ''-1234.567891''"
    and "\<not> num_gt ops (Math_abs ops x) (lit_1e7 ops)"
    and "\<not> num_lt ops (Math_abs ops x) (lit_1em7 ops)"
  shows "digit_count (toString ops x) = 10 \<and> formatResult ops x = toExponential ops x 4"
  using assms
  by (simp add: formatResult_def Let_def replace_point_def digit_count_def is_digit_def)

text \<open>
  Claim C5 at that number on the reference instance, and at the run that computes
  it as \<^verbatim>\<open>0 - 1234.567891\<close>.
\<close>

theorem C5_sign_counted_witness:
  "toString exact_ops (Some (- 1234567891 / 1000000)) = ''-1234.567891''
   \<and> digit_count (toString exact_ops (Some (- 1234567891 / 1000000))) = 10
   \<and> \<not> num_gt exact_ops (Math_abs exact_ops (Some (- 1234567891 / 1000000))) (lit_1e7 exact_ops)
   \<and> \<not> num_lt exact_ops (Math_abs exact_ops (Some (- 1234567891 / 1000000))) (lit_1em7 exact_ops)
   \<and> formatResult exact_ops (Some (- 1234567891 / 1000000)) = ''-1.2346e+3''
   \<and> currentInput (run exact_ops initial_state
        (keys ''0'' @ [AppendOperator '' - ''] @ keys ''1234.567891'' @ [Calculate])) = ''-1.2346e+3''"
proof -
  let ?x = "Some (- 1234567891 / 1000000) :: rat option"
  have h1: "toString exact_ops ?x = ''-1234.567891''" by code_simp
  have h2: "\<not> num_gt exact_ops (Math_abs exact_ops ?x) (lit_1e7 exact_ops)" by code_simp
  have h3: "\<not> num_lt exact_ops (Math_abs exact_ops ?x) (lit_1em7 exact_ops)" by code_simp
  have e: "toExponential exact_ops ?x 4 = ''-1.2346e+3''" by code_simp
  have r: "currentInput (run exact_ops initial_state
        (keys ''0'' @ [AppendOperator '' - ''] @ keys ''1234.567891'' @ [Calculate])) = ''-1.2346e+3''"
    by code_simp
  show ?thesis
    using h1 h2 h3 e r C5_sign_counted [OF h1 h2 h3] by simp
qed

end
